theory Spec2Isabelle
  imports Complex_Main "HOL-Library.Char_ord" "HOL-Library.List_Lexorder"
begin

section \<open>Label preparation of the chest X-ray walkthrough\<close>

text \<open>
  The notebook \<^verbatim>\<open>get-started/walkthrough.ipynb\<close> prepares the labels of the
  data set in three cells: it extracts the vocabulary \<^verbatim>\<open>unique_labels\<close> from
  the column \<^verbatim>\<open>Finding Labels\<close>, it builds \<^verbatim>\<open>label_index\<close> and the
  encoder \<^verbatim>\<open>string_to_N_hot\<close>, and it writes \<^verbatim>\<open>metadata.jsonl\<close>. Later the
  function \<^verbatim>\<open>vit_data_collator\<close> stacks examples into a batch.

  Strings are byte lists. The delimiter is one ASCII byte, which is never part of a longer
  UTF-8 sequence, and the order of UTF-8 byte lists is the order of the code point lists,
  so splitting and sorting bytes agrees with splitting and sorting Python strings. NumPy
  strips trailing NUL characters from the elements of a string array; labels are taken to
  hold no NUL character.

  The label vectors hold only the floating point values 0.0 and 1.0, which are exact; they
  are modelled by the reals 0 and 1.
\<close>

subsection \<open>Faults\<close>

text \<open>
  No cell catches an exception, so every exception raised by Python, NumPy or PyTorch
  leaves the function that saw it. A fault is the left summand of the result.
\<close>

datatype error =
    KeyError string
  | IndexError
  | ValueError
  | RuntimeError

subsection \<open>Splitting and joining on the delimiter\<close>

text \<open>
  \<^verbatim>\<open>string.split("|")\<close>: the fields between the occurrences of the delimiter, the
  empty fields included. The result is never empty: the empty string has the one field
  \<^verbatim>\<open>''\<close>. The accumulator \<open>field\<close> holds the bytes of the current field, reversed.
\<close>

fun split_from :: "string \<Rightarrow> string \<Rightarrow> string list" where
  "split_from field [] = [rev field]"
| "split_from field (c # cs) =
     (if c = CHR ''|'' then rev field # split_from [] cs
      else split_from (c # field) cs)"

definition split_pipe :: "string \<Rightarrow> string list" where
  "split_pipe string = split_from [] string"

text \<open>\<^verbatim>\<open>"|".join(tokens)\<close>, used to build label strings from tokens.\<close>

fun join_pipe :: "string list \<Rightarrow> string" where
  "join_pipe [] = []"
| "join_pipe [t] = t"
| "join_pipe (t # u # ts) = t @ CHR ''|'' # join_pipe (u # ts)"

subsection \<open>The vocabulary\<close>

text \<open>
  \<^verbatim>\<open>np.concatenate\<close> flattens the sequence of token lists and raises
  \<^verbatim>\<open>ValueError\<close> when the sequence holds no list at all.
\<close>

definition np_concatenate :: "'a list list \<Rightarrow> error + 'a list" where
  "np_concatenate arrays = (if arrays = [] then Inl ValueError else Inr (concat arrays))"

text \<open>
  \<^verbatim>\<open>np.unique\<close> sorts the flattened array and keeps each element that differs from
  its predecessor.
\<close>

definition np_unique :: "'a::linorder list \<Rightarrow> 'a list" where
  "np_unique ar = remdups_adj (sort ar)"

text \<open>
  \<^verbatim>\<open>unique_labels = np.unique(data['Finding Labels'].str.split("|")
      .aggregate(np.concatenate)).tolist()\<close>
\<close>

definition unique_labels :: "string list \<Rightarrow> error + string list" where
  "unique_labels finding_labels =
     (case np_concatenate (map split_pipe finding_labels) of
        Inl e \<Rightarrow> Inl e
      | Inr tokens \<Rightarrow> Inr (np_unique tokens))"

text \<open>
  \<^verbatim>\<open>label_index = {v: i for i, v in enumerate(unique_labels)}\<close>: the entries are
  stored from left to right, so a later entry with the same key replaces an earlier one.
\<close>

definition label_index :: "string list \<Rightarrow> (string \<rightharpoonup> nat)" where
  "label_index vocab = fold (\<lambda>(i, v) m. m(v \<mapsto> i)) (enumerate 0 vocab) Map.empty"

subsection \<open>The encoder\<close>

text \<open>
  \<^verbatim>\<open>[label_index[cl] for cl in tokens]\<close>: the look-ups run from left to right and the
  first missing key raises \<^verbatim>\<open>KeyError\<close>.
\<close>

fun lookup_all :: "(string \<rightharpoonup> nat) \<Rightarrow> string list \<Rightarrow> error + nat list" where
  "lookup_all m [] = Inr []"
| "lookup_all m (cl # cls) =
     (case m cl of
        None \<Rightarrow> Inl (KeyError cl)
      | Some i \<Rightarrow> (case lookup_all m cls of Inl e \<Rightarrow> Inl e | Inr is \<Rightarrow> Inr (i # is)))"

text \<open>
  \<^verbatim>\<open>label[true_index] = 1\<close>: every listed position is overwritten; a position outside
  the array raises \<^verbatim>\<open>IndexError\<close>.
\<close>

fun assign_at :: "real list \<Rightarrow> nat list \<Rightarrow> real \<Rightarrow> error + real list" where
  "assign_at label [] x = Inr label"
| "assign_at label (i # is) x =
     (if i < length label then assign_at (label[i := x]) is x else Inl IndexError)"

text \<open>
  \<^verbatim>\<open>
  def string_to_N_hot(string: str):
      true_index = [label_index[cl] for cl in string.split("|")]
      label = np.zeros((len(unique_labels),), dtype=float)
      label[true_index] = 1
      return label
  \<close>
  The function reads the globals \<^verbatim>\<open>label_index\<close> and \<^verbatim>\<open>unique_labels\<close> and
  assigns to neither; the array it writes to is the fresh one made by \<^verbatim>\<open>np.zeros\<close>.
  The vocabulary is the first argument of the model.
\<close>

definition string_to_N_hot :: "string list \<Rightarrow> string \<Rightarrow> error + real list" where
  "string_to_N_hot vocab string =
     (case lookup_all (label_index vocab) (split_pipe string) of
        Inl e \<Rightarrow> Inl e
      | Inr true_index \<Rightarrow> assign_at (replicate (length vocab) 0) true_index 1)"

text \<open>
  Reading a label vector back: the vocabulary tokens at the positions that hold 1, in
  vocabulary order.
\<close>

definition decode_N_hot :: "string list \<Rightarrow> real list \<Rightarrow> string list" where
  "decode_N_hot vocab label = map fst (filter (\<lambda>(t, x). x = 1) (zip vocab label))"

text \<open>
  The vocabulary in the words of the specification: split every row, flatten, deduplicate,
  sort. It is compared with \<open>unique_labels\<close> below.
\<close>

definition sorted_dedup_tokens :: "string list \<Rightarrow> string list" where
  "sorted_dedup_tokens finding_labels = sort (remdups (concat (map split_pipe finding_labels)))"

subsection \<open>The metadata file\<close>

text \<open>
  \<^verbatim>\<open>to_json(..., orient='records', lines=True)\<close> writes one JSON object per row of
  the frame, each on a line of its own, with the columns of the frame as its fields. The
  text of a line is kept abstract: a line is the JSON value it holds.
\<close>

datatype json =
    JString string
  | JNumber real
  | JArray "json list"
  | JObject "(string \<times> json) list"

text \<open>
  The file system maps the path of a regular file to its lines. The directory
  \<^verbatim>\<open>images_dir\<close> is taken to exist and to be writable, and no directory stands at
  the path of the metadata file.
\<close>

type_synonym path = string
type_synonym filesystem = "path \<rightharpoonup> json list"

definition is_file :: "filesystem \<Rightarrow> path \<Rightarrow> bool" where
  "is_file fs p = (fs p \<noteq> None)"

text \<open>
  \<^verbatim>\<open>data[["Image Index", "labels"]].rename(columns={"Image Index": "file_name"})\<close>
  is a frame of two columns; a row of it is the pair of the image's file name and its label
  vector.
\<close>

definition to_json :: "(string \<times> real list) list \<Rightarrow> json list" where
  "to_json frame =
     map (\<lambda>(file_name, labels).
            JObject [(''file_name'', JString file_name),
                     (''labels'', JArray (map JNumber labels))]) frame"

text \<open>
  \<^verbatim>\<open>
  metadata_file = images_dir/"metadata.jsonl"
  if not metadata_file.is_file():
      data[["Image Index", "labels"]].rename(...).to_json(images_dir / 'metadata.jsonl',
                                                          orient='records', lines=True)
  \<close>
  The cell takes the file system and returns the file system it leaves behind.
\<close>

definition write_metadata ::
    "filesystem \<Rightarrow> path \<Rightarrow> (string \<times> real list) list \<Rightarrow> filesystem" where
  "write_metadata fs metadata_file frame =
     (if \<not> is_file fs metadata_file then fs(metadata_file \<mapsto> to_json frame) else fs)"

subsection \<open>Tensors and the collator\<close>

text \<open>
  A tensor is its shape and its elements in row-major order; it is well formed when the
  number of elements is the product of the shape.
\<close>

record 'a tensor =
  shape :: "nat list"
  elems :: "'a list"

definition wf_tensor :: "'a tensor \<Rightarrow> bool" where
  "wf_tensor t = (length (elems t) = prod_list (shape t))"

text \<open>\<^verbatim>\<open>t[i]\<close>: the slice of a tensor at position \<open>i\<close> of its leading dimension.\<close>

definition select :: "'a tensor \<Rightarrow> nat \<Rightarrow> 'a tensor" where
  "select t i =
     (let n = prod_list (tl (shape t))
      in \<lparr>shape = tl (shape t), elems = take n (drop (i * n) (elems t))\<rparr>)"

text \<open>
  \<^verbatim>\<open>torch.stack\<close> joins tensors of one shape along a new leading dimension. It raises
  \<^verbatim>\<open>RuntimeError\<close> on the empty list and on tensors of different shapes.
\<close>

definition torch_stack :: "'a tensor list \<Rightarrow> error + 'a tensor" where
  "torch_stack tensors =
     (if tensors = [] then Inl RuntimeError
      else if list_all (\<lambda>t. shape t = shape (hd tensors)) tensors
      then Inr \<lparr>shape = length tensors # shape (hd tensors),
                elems = concat (map elems tensors)\<rparr>
      else Inl RuntimeError)"

text \<open>
  \<^verbatim>\<open>torch.tensor\<close> on a list of lists of numbers builds a matrix with one row per
  list. It reads the sizes off the outer list and off its first row. When these sizes leave
  the tensor without an element (no row, or an empty first row) nothing is stored and no
  further row is looked at; otherwise every row is stored, and a row whose length is not
  the length of the first row raises \<^verbatim>\<open>ValueError\<close>.

  The numbers are Python floats and the tensor holds them in its 32-bit format. The
  conversion is the parameter \<open>to_float32\<close> of the model: nothing is assumed of it, and
  on the label values 0.0 and 1.0 the conversion of PyTorch is exact.
\<close>

definition torch_tensor :: "(real \<Rightarrow> real) \<Rightarrow> real list list \<Rightarrow> error + real tensor" where
  "torch_tensor to_float32 rows =
     (if rows = [] then Inr \<lparr>shape = [0], elems = []\<rparr>
      else if hd rows = [] then Inr \<lparr>shape = [length rows, 0], elems = []\<rparr>
      else if list_all (\<lambda>r. length r = length (hd rows)) rows
      then Inr \<lparr>shape = [length rows, length (hd rows)],
                elems = map to_float32 (concat rows)\<rparr>
      else Inl ValueError)"

text \<open>
  A transformed example: the pixel tensor made by \<^verbatim>\<open>XRayTransform\<close> and the label
  vector read from the metadata file, a list of numbers.
\<close>

record example =
  pixel_values :: "real tensor"
  labels :: "real list"

text \<open>
  \<^verbatim>\<open>
  def vit_data_collator(examples):
      pixel_values = torch.stack([example["pixel_values"] for example in examples])
      labels = torch.tensor([example["labels"] for example in examples])
      return {"pixel_values": pixel_values, "labels": labels}
  \<close>
  The batch is a dictionary from key to tensor. The first argument of the model is the
  conversion that \<^verbatim>\<open>torch.tensor\<close> applies to the label values.
\<close>

definition vit_data_collator ::
    "(real \<Rightarrow> real) \<Rightarrow> example list \<Rightarrow> error + (string \<rightharpoonup> real tensor)" where
  "vit_data_collator to_float32 examples =
     (case torch_stack (map pixel_values examples) of
        Inl e \<Rightarrow> Inl e
      | Inr pv \<Rightarrow>
          (case torch_tensor to_float32 (map labels examples) of
             Inl e \<Rightarrow> Inl e
           | Inr lb \<Rightarrow> Inr [''pixel_values'' \<mapsto> pv, ''labels'' \<mapsto> lb]))"

section \<open>Properties of the label encoder\<close>

subsection \<open>Splitting and joining\<close>

lemma split_from_not_Nil: "split_from field string \<noteq> []"
  by (induction string arbitrary: field) auto

lemma split_from_no_pipe:
  "CHR ''|'' \<notin> set field \<Longrightarrow> t \<in> set (split_from field string) \<Longrightarrow> CHR ''|'' \<notin> set t"
proof (induction string arbitrary: field)
  case Nil
  then show ?case by auto
next
  case (Cons c cs)
  show ?case
  proof (cases "c = CHR ''|''")
    case True
    with Cons.prems have "t = rev field \<or> t \<in> set (split_from [] cs)" by simp
    then show ?thesis using Cons.prems(1) Cons.IH [of "[]"] by auto
  next
    case False
    with Cons.prems have "t \<in> set (split_from (c # field) cs)" by simp
    then show ?thesis using False Cons.prems(1) Cons.IH [of "c # field"] by auto
  qed
qed

lemma split_pipe_not_Nil: "split_pipe string \<noteq> []"
  by (simp add: split_pipe_def split_from_not_Nil)

lemma split_pipe_no_pipe: "t \<in> set (split_pipe string) \<Longrightarrow> CHR ''|'' \<notin> set t"
  using split_from_no_pipe [of "[]" t string] by (simp add: split_pipe_def)

lemma split_from_token:
  "CHR ''|'' \<notin> set t \<Longrightarrow> split_from field t = [rev field @ t]"
  by (induction t arbitrary: field) auto

lemma split_from_token_pipe:
  "CHR ''|'' \<notin> set t \<Longrightarrow>
   split_from field (t @ CHR ''|'' # rest) = (rev field @ t) # split_from [] rest"
  by (induction t arbitrary: field) auto

lemma split_pipe_join_pipe:
  "ts \<noteq> [] \<Longrightarrow> \<forall>t\<in>set ts. CHR ''|'' \<notin> set t \<Longrightarrow> split_pipe (join_pipe ts) = ts"
proof (induction ts rule: join_pipe.induct)
  case 1
  then show ?case by simp
next
  case (2 t)
  then show ?case by (simp add: split_pipe_def split_from_token)
next
  case (3 t u ts)
  then have "split_pipe (join_pipe (u # ts)) = u # ts" by simp
  with 3 show ?case by (simp add: split_pipe_def split_from_token_pipe)
qed

subsection \<open>The index of the vocabulary\<close>

lemma dom_fold_enumerate:
  "dom (fold (\<lambda>(i, v) m. m(v \<mapsto> i)) (enumerate n xs) m) = dom m \<union> set xs"
  by (induction xs arbitrary: n m) auto

lemma fold_enumerate_Some:
  "fold (\<lambda>(i, v) m. m(v \<mapsto> i)) (enumerate n xs) m t = Some i \<Longrightarrow>
   (m t = Some i \<and> t \<notin> set xs) \<or> (n \<le> i \<and> i - n < length xs \<and> xs ! (i - n) = t)"
proof (induction xs arbitrary: n m)
  case Nil
  then show ?case by simp
next
  case (Cons x xs)
  from Cons.prems
  have "fold (\<lambda>(i, v) m. m(v \<mapsto> i)) (enumerate (Suc n) xs) (m(x \<mapsto> n)) t = Some i"
    by (simp only: enumerate_simps fold.simps o_apply case_prod_conv)
  from Cons.IH [OF this]
  consider "(m(x \<mapsto> n)) t = Some i" "t \<notin> set xs"
    | "Suc n \<le> i" "i - Suc n < length xs" "xs ! (i - Suc n) = t"
    by blast
  then show ?case
  proof cases
    case 1
    then show ?thesis by (cases "t = x") auto
  next
    case 2
    then have "i - n = Suc (i - Suc n)" by arith
    with 2 show ?thesis by simp
  qed
qed

lemma dom_label_index: "dom (label_index vocab) = set vocab"
  by (simp add: label_index_def dom_fold_enumerate)

lemma label_index_Some:
  "label_index vocab t = Some i \<Longrightarrow> i < length vocab \<and> vocab ! i = t"
  using fold_enumerate_Some [of 0 vocab Map.empty t i] by (simp add: label_index_def)

lemma label_index_None: "label_index vocab t = None \<longleftrightarrow> t \<notin> set vocab"
  using dom_label_index [of vocab] domIff [of t "label_index vocab"] by simp

lemma label_index_distinct:
  assumes "distinct vocab" and "k < length vocab"
  shows "label_index vocab (vocab ! k) = Some k"
proof -
  from assms(2) have "vocab ! k \<in> dom (label_index vocab)"
    by (simp add: dom_label_index)
  then obtain i where i: "label_index vocab (vocab ! k) = Some i" by auto
  from label_index_Some [OF i] have "i < length vocab" "vocab ! i = vocab ! k" by simp_all
  with assms have "i = k" by (simp add: nth_eq_iff_index_eq)
  with i show ?thesis by simp
qed

subsection \<open>Look-up and assignment\<close>

lemma lookup_all_Inr:
  "set cls \<subseteq> dom m \<Longrightarrow> lookup_all m cls = Inr (map (\<lambda>cl. the (m cl)) cls)"
  by (induction cls) auto

lemma lookup_all_Inl:
  "\<not> set cls \<subseteq> dom m \<Longrightarrow> \<exists>cl. cl \<in> set cls \<and> cl \<notin> dom m \<and> lookup_all m cls = Inl (KeyError cl)"
proof (induction cls)
  case Nil
  then show ?case by simp
next
  case (Cons c cls)
  show ?case
  proof (cases "m c")
    case None
    then show ?thesis by (auto simp: dom_def)
  next
    case (Some i)
    with Cons.prems have "\<not> set cls \<subseteq> dom m" by auto
    from Cons.IH [OF this] Some show ?thesis by auto
  qed
qed

lemma assign_at_Inr:
  "\<forall>i\<in>set is. i < length label \<Longrightarrow>
   \<exists>v. assign_at label is x = Inr v \<and> length v = length label \<and>
       (\<forall>k<length label. v ! k = (if k \<in> set is then x else label ! k))"
proof (induction "is" arbitrary: label)
  case Nil
  then show ?case by simp
next
  case (Cons i "is")
  from Cons.prems have "\<forall>j\<in>set is. j < length (label[i := x])" by simp
  from Cons.IH [OF this] obtain v where v: "assign_at (label[i := x]) is x = Inr v"
    "length v = length label"
    "\<forall>k<length label. v ! k = (if k \<in> set is then x else label[i := x] ! k)"
    by auto
  from Cons.prems have "i < length label" by simp
  with v show ?case by (auto simp: nth_list_update)
qed

subsection \<open>The encoder and the vocabulary\<close>

lemma string_to_N_hot_Inr:
  assumes "set (split_pipe string) \<subseteq> set vocab"
  shows "\<exists>v. string_to_N_hot vocab string = Inr v \<and> length v = length vocab \<and>
           (\<forall>k<length vocab. v ! k =
              (if k \<in> (\<lambda>cl. the (label_index vocab cl)) ` set (split_pipe string)
               then 1 else 0))"
proof -
  let ?is = "map (\<lambda>cl. the (label_index vocab cl)) (split_pipe string)"
  from assms have look: "lookup_all (label_index vocab) (split_pipe string) = Inr ?is"
    by (simp add: lookup_all_Inr dom_label_index)
  have "\<forall>i\<in>set ?is. i < length (replicate (length vocab) (0::real))"
  proof
    fix i assume "i \<in> set ?is"
    then obtain cl where cl: "cl \<in> set (split_pipe string)" "i = the (label_index vocab cl)"
      by auto
    with assms have "cl \<in> dom (label_index vocab)" by (auto simp: dom_label_index)
    then obtain j where "label_index vocab cl = Some j" by auto
    with cl label_index_Some [of vocab cl j] show "i < length (replicate (length vocab) (0::real))"
      by simp
  qed
  from assign_at_Inr [OF this, of 1] look show ?thesis
    by (auto simp: string_to_N_hot_def)
qed

lemma string_to_N_hot_Inl:
  assumes "\<not> set (split_pipe string) \<subseteq> set vocab"
  shows "\<exists>cl. cl \<in> set (split_pipe string) \<and> cl \<notin> set vocab \<and>
              string_to_N_hot vocab string = Inl (KeyError cl)"
  using lookup_all_Inl [of "split_pipe string" "label_index vocab"] assms
  by (auto simp: string_to_N_hot_def dom_label_index)

lemma set_decode_N_hot:
  "length label = length vocab \<Longrightarrow>
   set (decode_N_hot vocab label) = {vocab ! k |k. k < length vocab \<and> label ! k = 1}"
  by (force simp: decode_N_hot_def set_zip image_iff)

lemma decode_string_to_N_hot:
  assumes "string_to_N_hot vocab string = Inr v"
  shows "set (decode_N_hot vocab v) = set (split_pipe string)"
proof -
  have sub: "set (split_pipe string) \<subseteq> set vocab"
    using string_to_N_hot_Inl [of string vocab] assms by auto
  from string_to_N_hot_Inr [OF sub] assms
  have len: "length v = length vocab"
    and bits: "\<forall>k<length vocab. v ! k =
        (if k \<in> (\<lambda>cl. the (label_index vocab cl)) ` set (split_pipe string) then 1 else 0)"
    by auto
  have idx: "\<exists>k. label_index vocab cl = Some k \<and> k < length vocab \<and> vocab ! k = cl"
    if "cl \<in> set (split_pipe string)" for cl
  proof -
    from that sub have "cl \<in> dom (label_index vocab)" by (auto simp: dom_label_index)
    then obtain k where "label_index vocab cl = Some k" by auto
    with label_index_Some [OF this] show ?thesis by simp
  qed
  show ?thesis
  proof (intro set_eqI iffI)
    fix t assume "t \<in> set (decode_N_hot vocab v)"
    then obtain k where k: "k < length vocab" "v ! k = 1" "t = vocab ! k"
      by (auto simp: set_decode_N_hot [OF len])
    with bits obtain cl where cl: "cl \<in> set (split_pipe string)" "k = the (label_index vocab cl)"
      by (auto split: if_splits)
    from idx [OF cl(1)] cl(2) k(3) show "t \<in> set (split_pipe string)" using cl(1) by auto
  next
    fix t assume t: "t \<in> set (split_pipe string)"
    from idx [OF t] obtain k where k: "label_index vocab t = Some k" "k < length vocab" "vocab ! k = t"
      by auto
    from k(1) t have "k \<in> (\<lambda>cl. the (label_index vocab cl)) ` set (split_pipe string)"
      by force
    with bits k(2) have "v ! k = 1" by simp
    with k show "t \<in> set (decode_N_hot vocab v)"
      by (auto simp: set_decode_N_hot [OF len])
  qed
qed

lemma distinct_remdups_adj_sorted: "sorted xs \<Longrightarrow> distinct (remdups_adj xs)"
  by (induction xs rule: remdups_adj.induct) auto

lemma set_np_unique: "set (np_unique ar) = set ar"
  by (simp add: np_unique_def)

lemma sorted_np_unique: "sorted (np_unique ar)"
  by (simp add: np_unique_def)

lemma distinct_np_unique: "distinct (np_unique ar)"
  by (simp add: np_unique_def distinct_remdups_adj_sorted)

lemma np_unique_sorted_list_of_set: "np_unique ar = sorted_list_of_set (set ar)"
  by (rule sorted_distinct_set_unique)
     (simp_all add: sorted_np_unique distinct_np_unique set_np_unique)

lemma unique_labels_Inr:
  "finding_labels \<noteq> [] \<Longrightarrow>
   unique_labels finding_labels = Inr (np_unique (concat (map split_pipe finding_labels)))"
  by (simp add: unique_labels_def np_concatenate_def)

lemma unique_labels_tokens:
  assumes "unique_labels finding_labels = Inr vocab"
  shows "set vocab = (\<Union>row\<in>set finding_labels. set (split_pipe row))"
    and "sorted vocab" and "distinct vocab"
  using assms
  by (auto simp: unique_labels_def np_concatenate_def set_np_unique sorted_np_unique
      distinct_np_unique split: if_splits)

lemma string_to_N_hot_single:
  assumes "label_index vocab cl = Some k" and "CHR ''|'' \<notin> set cl"
  shows "string_to_N_hot vocab cl = Inr ((replicate (length vocab) 0)[k := 1])"
proof -
  from assms(2) have "split_pipe cl = [cl]" by (simp add: split_pipe_def split_from_token)
  moreover from label_index_Some [OF assms(1)] have "k < length vocab" by simp
  ultimately show ?thesis using assms(1) by (simp add: string_to_N_hot_def)
qed

lemma np_unique_eq_sort_remdups: "np_unique ar = sort (remdups ar)"
  by (rule sorted_distinct_set_unique)
     (simp_all add: sorted_np_unique distinct_np_unique set_np_unique)

lemma ran_label_index:
  assumes "distinct vocab"
  shows "ran (label_index vocab) = {..<length vocab}"
proof (intro set_eqI iffI)
  fix i assume "i \<in> ran (label_index vocab)"
  then obtain t where "label_index vocab t = Some i" by (auto simp: ran_def)
  from label_index_Some [OF this] show "i \<in> {..<length vocab}" by simp
next
  fix i assume "i \<in> {..<length vocab}"
  then have "i < length vocab" by simp
  from label_index_distinct [OF assms this] show "i \<in> ran (label_index vocab)"
    by (auto simp: ran_def)
qed

section \<open>The claims\<close>

text \<open>
  C1 (round trip). The vocabulary is the one extracted from a label column, and the label
  string is made by joining tokens of the vocabulary with the delimiter. Whenever the
  encoder returns a vector for the joined string, the vocabulary tokens at the positions
  that hold 1 are, as a set, the tokens obtained by splitting the string. When at least
  one token is joined the encoder does return a vector, and the tokens read back are the
  tokens that were joined. (Joining no token gives the empty string, which splits into the
  single empty token.)
\<close>

theorem round_trip_N_hot:
  assumes "unique_labels finding_labels = Inr vocab" and "set ts \<subseteq> set vocab"
  shows "(\<forall>v. string_to_N_hot vocab (join_pipe ts) = Inr v \<longrightarrow>
            set (decode_N_hot vocab v) = set (split_pipe (join_pipe ts))) \<and>
         (ts \<noteq> [] \<longrightarrow>
            (\<exists>v. string_to_N_hot vocab (join_pipe ts) = Inr v \<and>
                 set (decode_N_hot vocab v) = set (split_pipe (join_pipe ts)) \<and>
                 set (split_pipe (join_pipe ts)) = set ts))"
proof (intro conjI allI impI)
  fix v assume "string_to_N_hot vocab (join_pipe ts) = Inr v"
  then show "set (decode_N_hot vocab v) = set (split_pipe (join_pipe ts))"
    by (rule decode_string_to_N_hot)
next
  assume ne: "ts \<noteq> []"
  have "\<forall>t\<in>set ts. CHR ''|'' \<notin> set t"
  proof
    fix t assume "t \<in> set ts"
    with assms(2) have "t \<in> set vocab" by auto
    with unique_labels_tokens(1) [OF assms(1)] obtain row where "t \<in> set (split_pipe row)"
      by auto
    then show "CHR ''|'' \<notin> set t" by (rule split_pipe_no_pipe)
  qed
  with ne have split: "split_pipe (join_pipe ts) = ts" by (rule split_pipe_join_pipe)
  with assms(2) have "set (split_pipe (join_pipe ts)) \<subseteq> set vocab" by simp
  from string_to_N_hot_Inr [OF this] obtain v
    where v: "string_to_N_hot vocab (join_pipe ts) = Inr v" by auto
  from decode_string_to_N_hot [OF v] split v
  show "\<exists>v. string_to_N_hot vocab (join_pipe ts) = Inr v \<and>
            set (decode_N_hot vocab v) = set (split_pipe (join_pipe ts)) \<and>
            set (split_pipe (join_pipe ts)) = set ts"
    by auto
qed

theorem round_trip_N_hot_witness:
  "unique_labels [''Effusion|Infiltration'', ''No Finding'', ''Infiltration'']
     = Inr [''Effusion'', ''Infiltration'', ''No Finding''] \<and>
   set [''No Finding'', ''Effusion''] \<subseteq> set [''Effusion'', ''Infiltration'', ''No Finding''] \<and>
   string_to_N_hot [''Effusion'', ''Infiltration'', ''No Finding'']
     (join_pipe [''No Finding'', ''Effusion'']) = Inr [1, 0, 1] \<and>
   set (decode_N_hot [''Effusion'', ''Infiltration'', ''No Finding''] [1, 0, 1])
     = set [''No Finding'', ''Effusion'']"
proof -
  have h1: "unique_labels [''Effusion|Infiltration'', ''No Finding'', ''Infiltration'']
     = Inr [''Effusion'', ''Infiltration'', ''No Finding'']"
    by (simp add: unique_labels_def np_concatenate_def np_unique_def split_pipe_def)
  have h2: "set [''No Finding'', ''Effusion''] \<subseteq> set [''Effusion'', ''Infiltration'', ''No Finding'']"
    by simp
  have enc: "string_to_N_hot [''Effusion'', ''Infiltration'', ''No Finding'']
     (join_pipe [''No Finding'', ''Effusion'']) = Inr [1, 0, 1]"
    by (simp add: string_to_N_hot_def label_index_def split_pipe_def)
  from round_trip_N_hot [OF h1 h2] enc
  have "set (decode_N_hot [''Effusion'', ''Infiltration'', ''No Finding''] [1, 0, 1])
     = set [''No Finding'', ''Effusion'']"
    by auto
  with h1 h2 enc show ?thesis by blast
qed

text \<open>
  C2 (vocabulary extraction). On a non-empty label column \<open>unique_labels\<close> returns the
  sorted, deduplicated list of the tokens of all rows: the list \<open>sorted_dedup_tokens\<close> of
  the specification. The result depends on the set of rows only, so every further run on
  the same column returns the same vocabulary; \<open>label_index\<close> assigns the indices
  \<open>0, \<dots>, length vocab - 1\<close>, as many as the vocabulary has tokens.
\<close>

theorem unique_labels_sorted_dedup:
  assumes "finding_labels \<noteq> []"
  shows "\<exists>vocab. unique_labels finding_labels = Inr vocab \<and>
           vocab = sorted_dedup_tokens finding_labels \<and>
           sorted vocab \<and> distinct vocab \<and>
           set vocab = set (concat (map split_pipe finding_labels)) \<and>
           (\<forall>other. set other = set finding_labels \<longrightarrow> unique_labels other = Inr vocab) \<and>
           dom (label_index vocab) = set vocab \<and>
           ran (label_index vocab) = {..<length vocab} \<and>
           card (ran (label_index vocab)) = card (set vocab)"
proof -
  let ?vocab = "np_unique (concat (map split_pipe finding_labels))"
  have u: "unique_labels finding_labels = Inr ?vocab"
    using assms by (rule unique_labels_Inr)
  have d: "distinct ?vocab" by (rule distinct_np_unique)
  have other: "unique_labels other = Inr ?vocab" if "set other = set finding_labels" for other
  proof -
    from that assms have "other \<noteq> []" by auto
    then have "unique_labels other = Inr (np_unique (concat (map split_pipe other)))"
      by (rule unique_labels_Inr)
    moreover have "set (concat (map split_pipe other)) = set (concat (map split_pipe finding_labels))"
      using that by simp
    ultimately show ?thesis by (simp add: np_unique_sorted_list_of_set)
  qed
  have "card (ran (label_index ?vocab)) = card (set ?vocab)"
    using d by (simp add: ran_label_index distinct_card)
  with u d other show ?thesis
    by (simp add: sorted_dedup_tokens_def np_unique_eq_sort_remdups [symmetric]
        sorted_np_unique set_np_unique dom_label_index ran_label_index)
qed

theorem unique_labels_sorted_dedup_witness:
  "[''Effusion|Infiltration'', ''No Finding'', ''Infiltration''] \<noteq> [] \<and>
   unique_labels [''Effusion|Infiltration'', ''No Finding'', ''Infiltration'']
     = Inr [''Effusion'', ''Infiltration'', ''No Finding''] \<and>
   sorted_dedup_tokens [''Effusion|Infiltration'', ''No Finding'', ''Infiltration'']
     = [''Effusion'', ''Infiltration'', ''No Finding''] \<and>
   card (ran (label_index [''Effusion'', ''Infiltration'', ''No Finding''])) = 3"
proof -
  let ?col = "[''Effusion|Infiltration'', ''No Finding'', ''Infiltration'']"
  let ?voc = "[''Effusion'', ''Infiltration'', ''No Finding'']"
  have h: "?col \<noteq> []" by simp
  have u: "unique_labels ?col = Inr ?voc"
    by (simp add: unique_labels_def np_concatenate_def np_unique_def split_pipe_def)
  from unique_labels_sorted_dedup [OF h] obtain vocab
    where v: "unique_labels ?col = Inr vocab" "vocab = sorted_dedup_tokens ?col"
      "card (ran (label_index vocab)) = card (set vocab)"
    by blast
  from v(1) u have eq: "vocab = ?voc" by simp
  from v(2) eq have a: "sorted_dedup_tokens ?col = ?voc" by simp
  have "card (set ?voc) = 3" by simp
  with v(3) eq have b: "card (ran (label_index ?voc)) = 3" by simp
  from h u a b show ?thesis by blast
qed

text \<open>
  C3 (unknown tokens). The encoder raises if and only if some token of the split string
  is not in the vocabulary; the fault is the \<^verbatim>\<open>KeyError\<close> of the look-up, nothing
  catches it, and no other fault can arise. When every token is in the vocabulary the
  encoder returns a vector.
\<close>

theorem string_to_N_hot_fails_iff:
  "((\<exists>e. string_to_N_hot vocab string = Inl e) \<longleftrightarrow>
      \<not> set (split_pipe string) \<subseteq> set vocab) \<and>
   (set (split_pipe string) \<subseteq> set vocab \<longrightarrow>
      (\<exists>v. string_to_N_hot vocab string = Inr v)) \<and>
   (\<forall>e. string_to_N_hot vocab string = Inl e \<longrightarrow>
      (\<exists>cl. e = KeyError cl \<and> cl \<in> set (split_pipe string) \<and> cl \<notin> set vocab))"
proof (cases "set (split_pipe string) \<subseteq> set vocab")
  case True
  from string_to_N_hot_Inr [OF True] obtain v where "string_to_N_hot vocab string = Inr v"
    by auto
  with True show ?thesis by auto
next
  case False
  from string_to_N_hot_Inl [OF False] False show ?thesis by auto
qed

theorem string_to_N_hot_fails_iff_witness:
  "string_to_N_hot [''Effusion'', ''Infiltration''] ''Effusion|Hernia''
     = Inl (KeyError ''Hernia'') \<and>
   \<not> set (split_pipe ''Effusion|Hernia'') \<subseteq> set [''Effusion'', ''Infiltration''] \<and>
   set (split_pipe ''Infiltration|Effusion'') \<subseteq> set [''Effusion'', ''Infiltration''] \<and>
   (\<exists>v. string_to_N_hot [''Effusion'', ''Infiltration''] ''Infiltration|Effusion'' = Inr v)"
proof -
  let ?vocab = "[''Effusion'', ''Infiltration'']"
  have a: "string_to_N_hot ?vocab ''Effusion|Hernia'' = Inl (KeyError ''Hernia'')"
    by (simp add: string_to_N_hot_def label_index_def split_pipe_def)
  then have "\<exists>e. string_to_N_hot ?vocab ''Effusion|Hernia'' = Inl e"
    by blast
  with string_to_N_hot_fails_iff [of ?vocab "''Effusion|Hernia''"]
  have b: "\<not> set (split_pipe ''Effusion|Hernia'') \<subseteq> set ?vocab"
    by blast
  have c: "set (split_pipe ''Infiltration|Effusion'') \<subseteq> set ?vocab"
    by (simp add: split_pipe_def)
  with string_to_N_hot_fails_iff [of ?vocab "''Infiltration|Effusion''"]
  have d: "\<exists>v. string_to_N_hot ?vocab ''Infiltration|Effusion'' = Inr v"
    by blast
  from a b c d show ?thesis by blast
qed

text \<open>
  C4 (the label vector). For a vocabulary without repetitions and a label string whose
  tokens all belong to it, the encoder returns a vector with one entry per vocabulary
  token: 1 where the token occurs in the split string and 0 everywhere else. The model is
  a function of the vocabulary and the string that returns the vector only: the source
  assigns to no global and writes to the array it has just allocated.
\<close>

theorem string_to_N_hot_vector:
  assumes "distinct vocab" and "set (split_pipe string) \<subseteq> set vocab"
  shows "\<exists>v. string_to_N_hot vocab string = Inr v \<and> length v = length vocab \<and>
           (\<forall>k<length vocab. v ! k = (if vocab ! k \<in> set (split_pipe string) then 1 else 0))"
proof -
  note sub = assms(2)
  from string_to_N_hot_Inr [OF sub] obtain v
    where v: "string_to_N_hot vocab string = Inr v" "length v = length vocab"
      and bits: "\<forall>k<length vocab. v ! k =
        (if k \<in> (\<lambda>cl. the (label_index vocab cl)) ` set (split_pipe string) then 1 else 0)"
    by auto
  have "k \<in> (\<lambda>cl. the (label_index vocab cl)) ` set (split_pipe string) \<longleftrightarrow>
        vocab ! k \<in> set (split_pipe string)" if k: "k < length vocab" for k
  proof
    assume "k \<in> (\<lambda>cl. the (label_index vocab cl)) ` set (split_pipe string)"
    then obtain cl where cl: "cl \<in> set (split_pipe string)" "k = the (label_index vocab cl)"
      by auto
    with sub have "cl \<in> dom (label_index vocab)" by (auto simp: dom_label_index)
    then obtain j where j: "label_index vocab cl = Some j" by auto
    from label_index_Some [OF j] j cl show "vocab ! k \<in> set (split_pipe string)" by simp
  next
    assume "vocab ! k \<in> set (split_pipe string)"
    moreover from label_index_distinct [OF assms(1) k]
    have "the (label_index vocab (vocab ! k)) = k" by simp
    ultimately show "k \<in> (\<lambda>cl. the (label_index vocab cl)) ` set (split_pipe string)"
      by force
  qed
  with v bits show ?thesis by auto
qed

theorem string_to_N_hot_vector_witness:
  "distinct [''Effusion'', ''Infiltration'', ''No Finding''] \<and>
   set (split_pipe ''Infiltration|Effusion'')
     \<subseteq> set [''Effusion'', ''Infiltration'', ''No Finding''] \<and>
   (\<exists>v. string_to_N_hot [''Effusion'', ''Infiltration'', ''No Finding''] ''Infiltration|Effusion''
          = Inr v \<and>
        length v = 3 \<and> v ! 0 = 1 \<and> v ! 1 = 1 \<and> v ! 2 = 0)"
proof -
  let ?vocab = "[''Effusion'', ''Infiltration'', ''No Finding'']"
  have h1: "distinct ?vocab" by simp
  have h2: "set (split_pipe ''Infiltration|Effusion'') \<subseteq> set ?vocab"
    by (simp add: split_pipe_def)
  from string_to_N_hot_vector [OF h1 h2] obtain v
    where v: "string_to_N_hot ?vocab ''Infiltration|Effusion'' = Inr v" "length v = length ?vocab"
      and bits: "\<forall>k<length ?vocab. v ! k =
         (if ?vocab ! k \<in> set (split_pipe ''Infiltration|Effusion'') then 1 else 0)"
    by blast
  from bits have "v ! 0 = 1" "v ! 1 = 1" "v ! 2 = 0"
    by (simp_all add: split_pipe_def)
  with v h1 h2 show ?thesis by auto
qed

text \<open>
  C5 (example scenario). With the vocabulary \<open>Effusion, Infiltration, No Finding\<close> the
  labels \<open>Effusion|Infiltration\<close>, \<open>No Finding\<close> and \<open>Infiltration\<close> are encoded
  as \<open>[1,1,0]\<close>, \<open>[0,0,1]\<close> and \<open>[0,1,0]\<close>; the vocabulary is the one extracted from
  these three labels.
\<close>

theorem example_scenario:
  "string_to_N_hot [''Effusion'', ''Infiltration'', ''No Finding''] ''Effusion|Infiltration''
     = Inr [1, 1, 0] \<and>
   string_to_N_hot [''Effusion'', ''Infiltration'', ''No Finding''] ''No Finding''
     = Inr [0, 0, 1] \<and>
   string_to_N_hot [''Effusion'', ''Infiltration'', ''No Finding''] ''Infiltration''
     = Inr [0, 1, 0] \<and>
   unique_labels [''Effusion|Infiltration'', ''No Finding'', ''Infiltration'']
     = Inr [''Effusion'', ''Infiltration'', ''No Finding'']"
  by (simp add: string_to_N_hot_def label_index_def split_pipe_def unique_labels_def
      np_concatenate_def np_unique_def)

text \<open>
  C9 (determinism). The vector is a function of the vocabulary and the input string: two
  runs on the same vocabulary and the same string return the same result. The source
  reads nothing else: no random number, no clock, no file and no variable that a run
  changes.
\<close>

theorem string_to_N_hot_deterministic:
  "vocab1 = vocab2 \<Longrightarrow> string1 = string2 \<Longrightarrow>
   string_to_N_hot vocab1 string1 = string_to_N_hot vocab2 string2"
  by simp

theorem string_to_N_hot_deterministic_witness:
  "[''Effusion'', ''Infiltration''] = [''Effusion'', ''Infiltration''] \<and>
   ''Infiltration'' = ''Infiltration'' \<and>
   string_to_N_hot [''Effusion'', ''Infiltration''] ''Infiltration''
     = string_to_N_hot [''Effusion'', ''Infiltration''] ''Infiltration''"
  using string_to_N_hot_deterministic
    [of "[''Effusion'', ''Infiltration'']" "[''Effusion'', ''Infiltration'']"
        "''Infiltration''" "''Infiltration''"]
  by simp

text \<open>
  C10 (the sentinel is an ordinary token). When some row of the label column holds the
  token \<open>No Finding\<close>, the extracted vocabulary contains it, and the encoder maps the
  string \<open>No Finding\<close> to the vector that is 1 at the position of that token and 0 at
  every other position; the result is never the vector of zeros.
\<close>

theorem no_finding_ordinary:
  assumes "unique_labels finding_labels = Inr vocab"
    and "\<exists>row\<in>set finding_labels. ''No Finding'' \<in> set (split_pipe row)"
  shows "''No Finding'' \<in> set vocab \<and>
         (\<exists>k<length vocab. vocab ! k = ''No Finding'' \<and>
            string_to_N_hot vocab ''No Finding'' = Inr ((replicate (length vocab) 0)[k := 1]) \<and>
            (replicate (length vocab) 0)[k := 1] ! k = (1::real) \<and>
            (\<forall>j<length vocab. j \<noteq> k \<longrightarrow> (replicate (length vocab) 0)[k := 1] ! j = (0::real))) \<and>
         string_to_N_hot vocab ''No Finding'' \<noteq> Inr (replicate (length vocab) 0)"
proof -
  from assms unique_labels_tokens(1) [OF assms(1)] have mem: "''No Finding'' \<in> set vocab"
    by auto
  then have "''No Finding'' \<in> dom (label_index vocab)" by (simp add: dom_label_index)
  then obtain k where k: "label_index vocab ''No Finding'' = Some k" by auto
  from label_index_Some [OF k] have kk: "k < length vocab" "vocab ! k = ''No Finding''"
    by simp_all
  have enc: "string_to_N_hot vocab ''No Finding'' = Inr ((replicate (length vocab) 0)[k := 1])"
    by (rule string_to_N_hot_single [OF k]) simp
  have "(replicate (length vocab) 0)[k := 1] ! k \<noteq> replicate (length vocab) (0::real) ! k"
    using kk(1) by simp
  then have "(replicate (length vocab) 0)[k := 1] \<noteq> replicate (length vocab) (0::real)"
    by metis
  with mem kk enc show ?thesis by auto
qed

theorem no_finding_ordinary_witness:
  "unique_labels [''Effusion|Infiltration'', ''No Finding'', ''Infiltration'']
     = Inr [''Effusion'', ''Infiltration'', ''No Finding''] \<and>
   (\<exists>row\<in>set [''Effusion|Infiltration'', ''No Finding'', ''Infiltration''].
      ''No Finding'' \<in> set (split_pipe row)) \<and>
   ''No Finding'' \<in> set [''Effusion'', ''Infiltration'', ''No Finding''] \<and>
   string_to_N_hot [''Effusion'', ''Infiltration'', ''No Finding''] ''No Finding''
     \<noteq> Inr (replicate (length [''Effusion'', ''Infiltration'', ''No Finding'']) 0)"
proof -
  have h1: "unique_labels [''Effusion|Infiltration'', ''No Finding'', ''Infiltration'']
     = Inr [''Effusion'', ''Infiltration'', ''No Finding'']"
    by (simp add: unique_labels_def np_concatenate_def np_unique_def split_pipe_def)
  have h2: "\<exists>row\<in>set [''Effusion|Infiltration'', ''No Finding'', ''Infiltration''].
      ''No Finding'' \<in> set (split_pipe row)"
    by (simp add: split_pipe_def)
  from no_finding_ordinary [OF h1 h2] h1 h2 show ?thesis by blast
qed

text \<open>
  C6 (the metadata file is written once). When the metadata file exists the cell returns
  the file system as it found it. When the file does not exist, the cell leaves at its
  path one line per row of the frame, in the order of the rows, each the JSON object with
  the fields \<open>file_name\<close> and \<open>labels\<close> of that row. No other path changes, and running
  the cell again, on any frame, changes nothing.
\<close>

theorem write_metadata_once:
  "(is_file fs metadata_file \<longrightarrow> write_metadata fs metadata_file frame = fs) \<and>
   (\<not> is_file fs metadata_file \<longrightarrow>
      (\<exists>lines. write_metadata fs metadata_file frame metadata_file = Some lines \<and>
         length lines = length frame \<and>
         (\<forall>i<length frame.
            lines ! i = JObject [(''file_name'', JString (fst (frame ! i))),
                                 (''labels'', JArray (map JNumber (snd (frame ! i))))]))) \<and>
   (\<forall>p. p \<noteq> metadata_file \<longrightarrow> write_metadata fs metadata_file frame p = fs p) \<and>
   write_metadata (write_metadata fs metadata_file frame) metadata_file frame'
     = write_metadata fs metadata_file frame"
  by (auto simp: write_metadata_def is_file_def to_json_def split: prod.splits)

theorem write_metadata_once_witness:
  "is_file [''images/metadata.jsonl'' \<mapsto> [JString ''cached'']] ''images/metadata.jsonl'' \<and>
   write_metadata [''images/metadata.jsonl'' \<mapsto> [JString ''cached'']] ''images/metadata.jsonl''
       [(''00000001_000.png'', [0, 1]), (''00000002_000.png'', [1, 0])]
     = [''images/metadata.jsonl'' \<mapsto> [JString ''cached'']] \<and>
   \<not> is_file Map.empty ''images/metadata.jsonl'' \<and>
   write_metadata Map.empty ''images/metadata.jsonl''
       [(''00000001_000.png'', [0, 1]), (''00000002_000.png'', [1, 0])] ''images/metadata.jsonl''
     = Some [JObject [(''file_name'', JString ''00000001_000.png''),
                      (''labels'', JArray [JNumber 0, JNumber 1])],
             JObject [(''file_name'', JString ''00000002_000.png''),
                      (''labels'', JArray [JNumber 1, JNumber 0])]]"
proof -
  let ?p = "''images/metadata.jsonl''"
  let ?old = "[?p \<mapsto> [JString ''cached'']]"
  let ?frame = "[(''00000001_000.png'', [0, 1::real]), (''00000002_000.png'', [1, 0])]"
  have h1: "is_file ?old ?p" by (simp add: is_file_def)
  have h2: "\<not> is_file Map.empty ?p" by (simp add: is_file_def)
  from write_metadata_once [of ?old ?p ?frame] h1
  have a: "write_metadata ?old ?p ?frame = ?old" by blast
  have b: "write_metadata Map.empty ?p ?frame ?p
     = Some [JObject [(''file_name'', JString ''00000001_000.png''),
                      (''labels'', JArray [JNumber 0, JNumber 1])],
             JObject [(''file_name'', JString ''00000002_000.png''),
                      (''labels'', JArray [JNumber 1, JNumber 0])]]"
    by (simp add: write_metadata_def is_file_def to_json_def)
  from h1 a h2 b show ?thesis by blast
qed

section \<open>Properties of the collator\<close>

lemma take_drop_concat:
  "\<forall>xs\<in>set xss. length xs = n \<Longrightarrow> i < length xss \<Longrightarrow>
   take n (drop (i * n) (concat xss)) = xss ! i"
proof (induction xss arbitrary: i)
  case Nil
  then show ?case by simp
next
  case (Cons xs xss)
  then have len: "length xs = n" by simp
  show ?case
  proof (cases i)
    case 0
    with len show ?thesis by simp
  next
    case (Suc j)
    with Cons.prems have "j < length xss" by simp
    with Cons have "take n (drop (j * n) (concat xss)) = xss ! j" by simp
    with Suc len show ?thesis by (simp add: add.commute)
  qed
qed

lemma torch_stack_Inr:
  assumes "tensors \<noteq> []" and "\<forall>t\<in>set tensors. shape t = s"
  shows "torch_stack tensors =
           Inr \<lparr>shape = length tensors # s, elems = concat (map elems tensors)\<rparr>"
proof -
  from assms have "shape (hd tensors) = s" by simp
  with assms show ?thesis by (simp add: torch_stack_def list_all_iff)
qed

lemma torch_tensor_Inr:
  assumes "rows \<noteq> []" and "\<forall>r\<in>set rows. length r = n"
  shows "torch_tensor to_float32 rows =
           Inr \<lparr>shape = [length rows, n], elems = map to_float32 (concat rows)\<rparr>"
proof (cases "hd rows = []")
  case True
  with assms have "n = 0" by (cases rows) auto
  with assms(2) have "concat rows = []" by simp
  with assms(1) True \<open>n = 0\<close> show ?thesis by (simp add: torch_tensor_def)
next
  case False
  from assms have "length (hd rows) = n" by simp
  with assms False show ?thesis by (simp add: torch_tensor_def list_all_iff)
qed

lemma torch_tensor_empty_first:
  "rows \<noteq> [] \<Longrightarrow> hd rows = [] \<Longrightarrow>
   torch_tensor to_float32 rows = Inr \<lparr>shape = [length rows, 0], elems = []\<rparr>"
  by (simp add: torch_tensor_def)

lemma torch_tensor_Inl:
  assumes "hd rows \<noteq> []" and "i < length rows" and "j < length rows"
    and "length (rows ! i) \<noteq> length (rows ! j)"
  shows "torch_tensor to_float32 rows = Inl ValueError"
proof -
  from assms(2) have ne: "rows \<noteq> []" by auto
  have "\<not> list_all (\<lambda>r. length r = length (hd rows)) rows"
  proof
    assume "list_all (\<lambda>r. length r = length (hd rows)) rows"
    with assms(2,3) have "length (rows ! i) = length (hd rows)"
      and "length (rows ! j) = length (hd rows)"
      by (simp_all add: list_all_length)
    with assms(4) show False by simp
  qed
  with ne assms(1) show ?thesis by (simp add: torch_tensor_def)
qed

lemma select_stacked:
  assumes "\<forall>t\<in>set tensors. shape t = s \<and> wf_tensor t" and "i < length tensors"
  shows "select \<lparr>shape = length tensors # s, elems = concat (map elems tensors)\<rparr> i
           = tensors ! i"
proof -
  from assms(1) have "\<forall>xs\<in>set (map elems tensors). length xs = prod_list s"
    by (auto simp: wf_tensor_def)
  from take_drop_concat [OF this, of i] assms(2)
  have "take (prod_list s) (drop (i * prod_list s) (concat (map elems tensors)))
          = elems (tensors ! i)"
    by simp
  moreover from assms have "shape (tensors ! i) = s" by simp
  ultimately show ?thesis by (simp add: select_def)
qed

lemma select_rows:
  assumes "\<forall>r\<in>set rows. length r = n" and "i < length rows"
  shows "select \<lparr>shape = [length rows, n], elems = map f (concat rows)\<rparr> i
           = \<lparr>shape = [n], elems = map f (rows ! i)\<rparr>"
proof -
  from assms(1) have "\<forall>xs\<in>set (map (map f) rows). length xs = n" by simp
  from take_drop_concat [OF this, of i] assms(2)
  have "take n (drop (i * n) (concat (map (map f) rows))) = map f (rows ! i)" by simp
  then show ?thesis by (simp add: select_def map_concat)
qed

lemma map_fixed: "list_all (\<lambda>x. f x = x) xs \<Longrightarrow> map f xs = xs"
  by (induction xs) auto

text \<open>
  C7, as stated, at the empty sequence: its examples share every shape and every length,
  and \<^verbatim>\<open>torch.stack\<close> raises on the empty list, so no batch is returned.
\<close>

theorem vit_data_collator_empty: "vit_data_collator id [] = Inl RuntimeError"
  by (simp add: vit_data_collator_def torch_stack_def)

text \<open>
  C7 (collation), for a non-empty sequence. When the pixel tensors of the examples are well
  formed and share the shape \<open>s\<close>, and the label vectors share the length \<open>n\<close>, the
  collator returns a dictionary with exactly the keys \<open>pixel_values\<close> and \<open>labels\<close>. The
  pixel tensor of the batch has the shape \<open>length examples # s\<close> and its slice at position
  \<open>i\<close> is the pixel tensor of example \<open>i\<close>; the label tensor has the shape
  \<open>[length examples, n]\<close> and its row \<open>i\<close> is the label vector of example \<open>i\<close> in the
  tensor's number format: the label vector itself whenever the conversion leaves its
  entries as they are, as it does for 0.0 and 1.0. Two examples of shape
  \<open>(3, 224, 224)\<close> give a batch of shape \<open>(2, 3, 224, 224)\<close>.
\<close>

theorem vit_data_collator_stacks:
  assumes "examples \<noteq> []"
    and "list_all (\<lambda>e. shape (pixel_values e) = s \<and> wf_tensor (pixel_values e) \<and>
                        length (labels e) = n) examples"
  shows "\<exists>batch pv lb. vit_data_collator to_float32 examples = Inr batch \<and>
           dom batch = {''pixel_values'', ''labels''} \<and>
           batch ''pixel_values'' = Some pv \<and> batch ''labels'' = Some lb \<and>
           shape pv = length examples # s \<and>
           shape lb = [length examples, n] \<and>
           (\<forall>i<length examples.
              select pv i = pixel_values (examples ! i) \<and>
              select lb i = \<lparr>shape = [n], elems = map to_float32 (labels (examples ! i))\<rparr> \<and>
              (list_all (\<lambda>x. to_float32 x = x) (labels (examples ! i)) \<longrightarrow>
                 select lb i = \<lparr>shape = [n], elems = labels (examples ! i)\<rparr>))"
proof -
  let ?pv = "\<lparr>shape = length examples # s,
              elems = concat (map elems (map pixel_values examples))\<rparr>"
  let ?lb = "\<lparr>shape = [length examples, n],
              elems = map to_float32 (concat (map labels examples))\<rparr>"
  let ?batch = "[''pixel_values'' \<mapsto> ?pv, ''labels'' \<mapsto> ?lb]"
  from assms(2) have px: "\<forall>t\<in>set (map pixel_values examples). shape t = s \<and> wf_tensor t"
    and lbs: "\<forall>r\<in>set (map labels examples). length r = n"
    by (auto simp: list_all_iff)
  from assms(1) px have st: "torch_stack (map pixel_values examples) = Inr ?pv"
    using torch_stack_Inr [of "map pixel_values examples" s] by simp
  from assms(1) lbs have tt: "torch_tensor to_float32 (map labels examples) = Inr ?lb"
    using torch_tensor_Inr [of "map labels examples" n to_float32] by simp
  from st tt have res: "vit_data_collator to_float32 examples = Inr ?batch"
    by (simp add: vit_data_collator_def)
  have dm: "dom ?batch = {''pixel_values'', ''labels''}" by auto
  have sl: "select ?pv i = pixel_values (examples ! i) \<and>
            select ?lb i = \<lparr>shape = [n], elems = map to_float32 (labels (examples ! i))\<rparr> \<and>
            (list_all (\<lambda>x. to_float32 x = x) (labels (examples ! i)) \<longrightarrow>
               select ?lb i = \<lparr>shape = [n], elems = labels (examples ! i)\<rparr>)"
    if "i < length examples" for i
  proof -
    from select_stacked [OF px, of i] that
    have a: "select ?pv i = pixel_values (examples ! i)" by simp
    from select_rows [OF lbs, of i to_float32] that
    have b: "select ?lb i = \<lparr>shape = [n], elems = map to_float32 (labels (examples ! i))\<rparr>"
      by simp
    have "map to_float32 (labels (examples ! i)) = labels (examples ! i)"
      if "list_all (\<lambda>x. to_float32 x = x) (labels (examples ! i))"
      using that by (rule map_fixed)
    with a b show ?thesis by simp
  qed
  from res dm sl show ?thesis
    by - (rule exI [of _ ?batch], rule exI [of _ ?pv], rule exI [of _ ?lb],
        simp add: map_fixed)
qed

theorem vit_data_collator_stacks_witness:
  "[\<lparr>pixel_values = \<lparr>shape = [3, 224, 224], elems = replicate 150528 0\<rparr>, labels = [0, 1, 0]\<rparr>,
    \<lparr>pixel_values = \<lparr>shape = [3, 224, 224], elems = replicate 150528 1\<rparr>, labels = [1, 0, 0]\<rparr>]
     \<noteq> [] \<and>
   list_all (\<lambda>e. shape (pixel_values e) = [3, 224, 224] \<and> wf_tensor (pixel_values e) \<and>
                   length (labels e) = 3)
     [\<lparr>pixel_values = \<lparr>shape = [3, 224, 224], elems = replicate 150528 0\<rparr>, labels = [0, 1, 0]\<rparr>,
      \<lparr>pixel_values = \<lparr>shape = [3, 224, 224], elems = replicate 150528 1\<rparr>, labels = [1, 0, 0]\<rparr>] \<and>
   (\<exists>batch pv lb.
      vit_data_collator id
        [\<lparr>pixel_values = \<lparr>shape = [3, 224, 224], elems = replicate 150528 0\<rparr>, labels = [0, 1, 0]\<rparr>,
         \<lparr>pixel_values = \<lparr>shape = [3, 224, 224], elems = replicate 150528 1\<rparr>, labels = [1, 0, 0]\<rparr>]
        = Inr batch \<and>
      batch ''pixel_values'' = Some pv \<and> batch ''labels'' = Some lb \<and>
      shape pv = [2, 3, 224, 224] \<and> shape lb = [2, 3] \<and>
      select lb 0 = \<lparr>shape = [3], elems = [0, 1, 0]\<rparr> \<and>
      select lb 1 = \<lparr>shape = [3], elems = [1, 0, 0]\<rparr>)"
proof -
  let ?e0 = "\<lparr>pixel_values = \<lparr>shape = [3, 224, 224], elems = replicate 150528 (0::real)\<rparr>,
              labels = [0, 1, 0]\<rparr>"
  let ?e1 = "\<lparr>pixel_values = \<lparr>shape = [3, 224, 224], elems = replicate 150528 (1::real)\<rparr>,
              labels = [1, 0, 0]\<rparr>"
  have h1: "[?e0, ?e1] \<noteq> []" by simp
  have h2: "list_all (\<lambda>e. shape (pixel_values e) = [3, 224, 224] \<and> wf_tensor (pixel_values e) \<and>
                   length (labels e) = 3) [?e0, ?e1]"
    by (simp add: wf_tensor_def)
  from vit_data_collator_stacks [OF h1 h2, of id] obtain batch pv lb
    where b: "vit_data_collator id [?e0, ?e1] = Inr batch"
      and d: "dom batch = {''pixel_values'', ''labels''}"
      and k: "batch ''pixel_values'' = Some pv" "batch ''labels'' = Some lb"
      and sh: "shape pv = length [?e0, ?e1] # [3, 224, 224]"
        "shape lb = [length [?e0, ?e1], 3]"
      and sl: "\<forall>i<length [?e0, ?e1]. select pv i = pixel_values ([?e0, ?e1] ! i) \<and>
              select lb i = \<lparr>shape = [3], elems = map id (labels ([?e0, ?e1] ! i))\<rparr> \<and>
              (list_all (\<lambda>x. id x = x) (labels ([?e0, ?e1] ! i)) \<longrightarrow>
                 select lb i = \<lparr>shape = [3], elems = labels ([?e0, ?e1] ! i)\<rparr>)"
    by (elim exE conjE) (rule that)
  from sl have "select pv 0 = pixel_values ([?e0, ?e1] ! 0) \<and>
      select lb 0 = \<lparr>shape = [3], elems = map id (labels ([?e0, ?e1] ! 0))\<rparr> \<and>
      (list_all (\<lambda>x. id x = x) (labels ([?e0, ?e1] ! 0)) \<longrightarrow>
         select lb 0 = \<lparr>shape = [3], elems = labels ([?e0, ?e1] ! 0)\<rparr>)"
    by (elim allE [of _ 0]) simp
  then have s0: "select lb 0 = \<lparr>shape = [3], elems = [0, 1, 0]\<rparr>" by simp
  from sl have "select pv 1 = pixel_values ([?e0, ?e1] ! 1) \<and>
      select lb 1 = \<lparr>shape = [3], elems = map id (labels ([?e0, ?e1] ! 1))\<rparr> \<and>
      (list_all (\<lambda>x. id x = x) (labels ([?e0, ?e1] ! 1)) \<longrightarrow>
         select lb 1 = \<lparr>shape = [3], elems = labels ([?e0, ?e1] ! 1)\<rparr>)"
    by (elim allE [of _ 1]) simp
  then have s1: "select lb 1 = \<lparr>shape = [3], elems = [1, 0, 0]\<rparr>" by simp
  from sh have sh': "shape pv = [2, 3, 224, 224]" "shape lb = [2, 3]" by simp_all
  from b k sh' s0 s1 have "\<exists>batch pv lb.
      vit_data_collator id [?e0, ?e1] = Inr batch \<and>
      batch ''pixel_values'' = Some pv \<and> batch ''labels'' = Some lb \<and>
      shape pv = [2, 3, 224, 224] \<and> shape lb = [2, 3] \<and>
      select lb 0 = \<lparr>shape = [3], elems = [0, 1, 0]\<rparr> \<and>
      select lb 1 = \<lparr>shape = [3], elems = [1, 0, 0]\<rparr>"
    by (intro exI conjI)
  with h1 h2 show ?thesis by (intro conjI)
qed

text \<open>
  C8, as stated, at two examples whose pixel tensors have one shape and whose label vectors
  have the lengths 0 and 1: \<^verbatim>\<open>torch.tensor\<close> reads the row length 0 off the first
  label vector, builds a tensor without elements and looks at no further row, so the
  collator returns a batch; its label tensor has the shape \<open>(2, 0)\<close>.
\<close>

theorem vit_data_collator_empty_first_labels:
  "length (labels (\<lparr>pixel_values = \<lparr>shape = [1, 2], elems = [0, 1]\<rparr>, labels = []\<rparr>))
     \<noteq> length (labels (\<lparr>pixel_values = \<lparr>shape = [1, 2], elems = [1, 0]\<rparr>, labels = [1]\<rparr>)) \<and>
   \<not> isl (vit_data_collator id
     [\<lparr>pixel_values = \<lparr>shape = [1, 2], elems = [0, 1]\<rparr>, labels = []\<rparr>,
      \<lparr>pixel_values = \<lparr>shape = [1, 2], elems = [1, 0]\<rparr>, labels = [1]\<rparr>]) \<and>
   projr (vit_data_collator id
     [\<lparr>pixel_values = \<lparr>shape = [1, 2], elems = [0, 1]\<rparr>, labels = []\<rparr>,
      \<lparr>pixel_values = \<lparr>shape = [1, 2], elems = [1, 0]\<rparr>, labels = [1]\<rparr>]) ''labels''
     = Some \<lparr>shape = [2, 0], elems = []\<rparr> \<and>
   projr (vit_data_collator id
     [\<lparr>pixel_values = \<lparr>shape = [1, 2], elems = [0, 1]\<rparr>, labels = []\<rparr>,
      \<lparr>pixel_values = \<lparr>shape = [1, 2], elems = [1, 0]\<rparr>, labels = [1]\<rparr>]) ''pixel_values''
     = Some \<lparr>shape = [2, 1, 2], elems = [0, 1, 1, 0]\<rparr>"
  by (simp add: vit_data_collator_def torch_stack_def torch_tensor_def)

text \<open>
  C8 (shape mismatch), with the first label vector taken into account. When two examples
  of the sequence have pixel tensors of different shapes, or when the label vector of the
  first example is not empty and two examples have label vectors of different lengths, the
  collator returns no batch: the fault of \<^verbatim>\<open>torch.stack\<close> or of
  \<^verbatim>\<open>torch.tensor\<close> leaves the function.
\<close>

theorem vit_data_collator_mismatch:
  assumes "i < length examples" and "j < length examples"
    and "shape (pixel_values (examples ! i)) \<noteq> shape (pixel_values (examples ! j)) \<or>
         (labels (examples ! 0) \<noteq> [] \<and>
          length (labels (examples ! i)) \<noteq> length (labels (examples ! j)))"
  shows "vit_data_collator to_float32 examples = Inl RuntimeError \<or>
         vit_data_collator to_float32 examples = Inl ValueError"
proof -
  from assms(1) have ne: "examples \<noteq> []" by auto
  show ?thesis
  proof (cases "list_all (\<lambda>t. shape t = shape (hd (map pixel_values examples)))
                  (map pixel_values examples)")
    case False
    with ne have "torch_stack (map pixel_values examples) = Inl RuntimeError"
      by (simp add: torch_stack_def)
    then show ?thesis by (simp add: vit_data_collator_def)
  next
    case True
    with assms(1,2) have "shape (pixel_values (examples ! i)) = shape (pixel_values (examples ! j))"
      by (simp add: list_all_length)
    with assms(3) have first: "labels (examples ! 0) \<noteq> []"
      and diff: "length (labels (examples ! i)) \<noteq> length (labels (examples ! j))"
      by simp_all
    from ne first have "hd (map labels examples) \<noteq> []"
      by (simp add: hd_map hd_conv_nth)
    moreover from assms(1,2) diff
    have "length (map labels examples ! i) \<noteq> length (map labels examples ! j)" by simp
    ultimately have "torch_tensor to_float32 (map labels examples) = Inl ValueError"
      using assms(1,2) torch_tensor_Inl [of "map labels examples" i j to_float32] by simp
    moreover from ne True have "\<exists>pv. torch_stack (map pixel_values examples) = Inr pv"
      by (simp add: torch_stack_def)
    ultimately show ?thesis by (auto simp: vit_data_collator_def)
  qed
qed

theorem vit_data_collator_mismatch_witness:
  "(0::nat) < length
     [\<lparr>pixel_values = \<lparr>shape = [1, 2], elems = [0, 1]\<rparr>, labels = [0, 1]\<rparr>,
      \<lparr>pixel_values = \<lparr>shape = [1, 2], elems = [1, 0]\<rparr>, labels = [1]\<rparr>] \<and>
   (1::nat) < length
     [\<lparr>pixel_values = \<lparr>shape = [1, 2], elems = [0, 1]\<rparr>, labels = [0, 1]\<rparr>,
      \<lparr>pixel_values = \<lparr>shape = [1, 2], elems = [1, 0]\<rparr>, labels = [1]\<rparr>] \<and>
   labels ([\<lparr>pixel_values = \<lparr>shape = [1, 2], elems = [0, 1]\<rparr>, labels = [0, 1]\<rparr>,
            \<lparr>pixel_values = \<lparr>shape = [1, 2], elems = [1, 0]\<rparr>, labels = [1]\<rparr>] ! 0) \<noteq> [] \<and>
   length (labels
     ([\<lparr>pixel_values = \<lparr>shape = [1, 2], elems = [0, 1]\<rparr>, labels = [0, 1]\<rparr>,
       \<lparr>pixel_values = \<lparr>shape = [1, 2], elems = [1, 0]\<rparr>, labels = [1]\<rparr>] ! 0))
     \<noteq> length (labels
     ([\<lparr>pixel_values = \<lparr>shape = [1, 2], elems = [0, 1]\<rparr>, labels = [0, 1]\<rparr>,
       \<lparr>pixel_values = \<lparr>shape = [1, 2], elems = [1, 0]\<rparr>, labels = [1]\<rparr>] ! 1)) \<and>
   vit_data_collator id
     [\<lparr>pixel_values = \<lparr>shape = [1, 2], elems = [0, 1]\<rparr>, labels = [0, 1]\<rparr>,
      \<lparr>pixel_values = \<lparr>shape = [1, 2], elems = [1, 0]\<rparr>, labels = [1]\<rparr>]
     = Inl ValueError \<and>
   shape (pixel_values
     ([\<lparr>pixel_values = \<lparr>shape = [1, 2], elems = [0, 1]\<rparr>, labels = [0, 1]\<rparr>,
       \<lparr>pixel_values = \<lparr>shape = [2, 1], elems = [0, 1]\<rparr>, labels = [1, 0]\<rparr>] ! 0))
     \<noteq> shape (pixel_values
     ([\<lparr>pixel_values = \<lparr>shape = [1, 2], elems = [0, 1]\<rparr>, labels = [0, 1]\<rparr>,
       \<lparr>pixel_values = \<lparr>shape = [2, 1], elems = [0, 1]\<rparr>, labels = [1, 0]\<rparr>] ! 1)) \<and>
   vit_data_collator id
     [\<lparr>pixel_values = \<lparr>shape = [1, 2], elems = [0, 1]\<rparr>, labels = [0, 1]\<rparr>,
      \<lparr>pixel_values = \<lparr>shape = [2, 1], elems = [0, 1]\<rparr>, labels = [1, 0]\<rparr>]
     = Inl RuntimeError"
proof -
  let ?ls = "[\<lparr>pixel_values = \<lparr>shape = [1, 2], elems = [0, 1::real]\<rparr>, labels = [0, 1]\<rparr>,
              \<lparr>pixel_values = \<lparr>shape = [1, 2], elems = [1, 0]\<rparr>, labels = [1]\<rparr>]"
  let ?ss = "[\<lparr>pixel_values = \<lparr>shape = [1, 2], elems = [0, 1::real]\<rparr>, labels = [0, 1]\<rparr>,
              \<lparr>pixel_values = \<lparr>shape = [2, 1], elems = [0, 1]\<rparr>, labels = [1, 0]\<rparr>]"
  have l1: "(0::nat) < length ?ls" and l2: "(1::nat) < length ?ls" by simp_all
  have l3: "labels (?ls ! 0) \<noteq> []" by simp
  have l4: "length (labels (?ls ! 0)) \<noteq> length (labels (?ls ! 1))" by simp
  from l3 l4 have l5: "shape (pixel_values (?ls ! 0)) \<noteq> shape (pixel_values (?ls ! 1)) \<or>
       (labels (?ls ! 0) \<noteq> [] \<and> length (labels (?ls ! 0)) \<noteq> length (labels (?ls ! 1)))"
    by (intro disjI2 conjI)
  have nr: "vit_data_collator id ?ls \<noteq> Inl RuntimeError"
    by (simp add: vit_data_collator_def torch_stack_def torch_tensor_def)
  from vit_data_collator_mismatch [OF l1 l2 l5, of id] nr
  have a: "vit_data_collator id ?ls = Inl ValueError" by simp
  have s1: "(0::nat) < length ?ss" and s2: "(1::nat) < length ?ss" by simp_all
  have s3: "shape (pixel_values (?ss ! 0)) \<noteq> shape (pixel_values (?ss ! 1))" by simp
  then have s4: "shape (pixel_values (?ss ! 0)) \<noteq> shape (pixel_values (?ss ! 1)) \<or>
       (labels (?ss ! 0) \<noteq> [] \<and> length (labels (?ss ! 0)) \<noteq> length (labels (?ss ! 1)))"
    by (rule disjI1)
  have nv: "vit_data_collator id ?ss \<noteq> Inl ValueError"
    by (simp add: vit_data_collator_def torch_stack_def)
  from vit_data_collator_mismatch [OF s1 s2 s4, of id] nv
  have b: "vit_data_collator id ?ss = Inl RuntimeError" by simp
  from l1 l2 l3 l4 a s3 b show ?thesis by (intro conjI)
qed

end
